theory Spec2Isabelle
  imports Main
begin

section \<open>Values of the circuit layer\<close>

text \<open>
  A field element is either a constant or a variable of the backend, whose value only the
  prover knows. The class \<open>Field\<close> lives in \<open>snarky.js\<close>, outside the sources
  verified here; the two shapes are the ones the data model of the specification names.
\<close>

datatype Field = Constant nat | Var nat

text \<open>JavaScript's \<open>Error(message)\<close>: every throw of the source is a value of this type.\<close>

datatype error = Error string

text \<open>
  Auxiliary data has the TypeScript type \<open>any[]\<close>; \<open>any\<close> is the universe of the
  dynamically typed values that occur in it.
\<close>

datatype any = Undefined | Num int | Str string | Arr "any list"

text \<open>
  \<open>aux?.[i]\<close>: indexing with optional chaining. An absent array and an index out of
  range both give \<open>undefined\<close>.
\<close>

fun opt_index :: "any \<Rightarrow> nat \<Rightarrow> any" where
  "opt_index (Arr xs) i = (if i < length xs then xs ! i else Undefined)"
| "opt_index _ i = Undefined"

text \<open>\<open>fields.slice(a, b)\<close> for \<open>0 \<le> a \<le> b\<close>: clamped to the array, never an error.\<close>

definition slice :: "'a list \<Rightarrow> nat \<Rightarrow> nat \<Rightarrow> 'a list" where
  "slice xs a b = take (b - a) (drop a xs)"

text \<open>\<open>array.map(f)\<close> for a callback that may throw: the first throw ends the traversal.\<close>

fun map_throwing :: "('a \<Rightarrow> error + 'b) \<Rightarrow> 'a list \<Rightarrow> error + 'b list" where
  "map_throwing f [] = Inr []"
| "map_throwing f (x # xs) =
     (case f x of
        Inl e \<Rightarrow> Inl e
      | Inr y \<Rightarrow> (case map_throwing f xs of Inl e \<Rightarrow> Inl e | Inr ys \<Rightarrow> Inr (y # ys)))"

section \<open>The provable type descriptor\<close>

text \<open>
  The interface \<open>ProvableExtended<T, TJson>\<close>. \<open>check\<close> adds constraints and may throw,
  so it runs on the ambient state \<open>'s\<close>; its argument is \<open>None\<close> when it is called on
  \<open>undefined\<close>, as the array combinator does for an entry beyond the end of a short
  array. The three codecs at the end are the optional
  capabilities (\<open>None\<close> when the object has no such method, which is what
  \<open>'toJSON' in type\<close> probes).
\<close>

record ('a, 'j, 'h, 's) Provable =
  sizeInFields :: nat
  toFields :: "'a \<Rightarrow> Field list"
  toAuxiliary :: "'a option \<Rightarrow> any"
  fromFields :: "Field list \<Rightarrow> any \<Rightarrow> 'a"
  check :: "'a option \<Rightarrow> 's \<Rightarrow> (error + unit) \<times> 's"
  toJSON :: "('a \<Rightarrow> error + 'j) option"
  fromJSON :: "('j \<Rightarrow> error + 'a) option"
  toInput :: "('a \<Rightarrow> error + 'h) option"

text \<open>
  Calling a method of a descriptor: a method the object lacks is JavaScript's
  \<open>TypeError\<close>.
\<close>

definition call_method :: "('a \<Rightarrow> error + 'b) option \<Rightarrow> 'a \<Rightarrow> error + 'b" where
  "call_method m x =
     (case m of None \<Rightarrow> Inl (Error ''TypeError: not a function'') | Some f \<Rightarrow> f x)"

text \<open>The two laws of the data model that the combinators rely on.\<close>

definition size_law :: "('a, 'j, 'h, 's) Provable \<Rightarrow> bool" where
  "size_law T = (\<forall>v. length (toFields T v) = sizeInFields T)"

definition round_trip_at :: "('a, 'j, 'h, 's) Provable \<Rightarrow> 'a \<Rightarrow> bool" where
  "round_trip_at T v = (fromFields T (toFields T v) (toAuxiliary T (Some v)) = v)"

section \<open>The array combinator\<close>

text \<open>
  The loop of \<open>fromFields\<close>:
  \<^verbatim>\<open>for (let i = 0, offset = 0; i < n; i++, offset += size) array[i] = ...\<close>.
  \<open>array\<close> has \<open>i\<close> entries when entry \<open>i\<close> is written, so the write appends.
\<close>

function fromFields_loop ::
  "('a, 'j, 'h, 's) Provable \<Rightarrow> Field list \<Rightarrow> any \<Rightarrow> nat \<Rightarrow> nat \<Rightarrow> nat \<Rightarrow> nat \<Rightarrow> 'a list \<Rightarrow> 'a list"
where
  "fromFields_loop type flds aux size' n i offset array =
     (if i < n
      then fromFields_loop type flds aux size' n (i + 1) (offset + size')
             (array @ [fromFields type (slice flds offset (offset + size')) (opt_index aux i)])
      else array)"
  by pat_completeness auto
termination
  by (relation "measure (\<lambda>(type, flds, aux, size', n, i, offset, array). n - i)") auto

declare fromFields_loop.simps [simp del]

text \<open>
  \<open>array[i]\<close>: an entry beyond the end of the array reads as \<open>undefined\<close>.
\<close>

definition entry :: "'a list \<Rightarrow> nat \<Rightarrow> 'a option" where
  "entry array i = (if i < length array then Some (array ! i) else None)"

text \<open>
  The loop of \<open>check\<close>: \<open>for (let i = 0; i < length; i++) type.check(array[i])\<close>.
  The element's \<open>check\<close> is called on every entry up to the declared length, on
  \<open>undefined\<close> where the array is shorter; the loop itself throws nothing.
\<close>

function check_loop ::
  "('a, 'j, 'h, 's) Provable \<Rightarrow> 'a list \<Rightarrow> nat \<Rightarrow> nat \<Rightarrow> 's \<Rightarrow> (error + unit) \<times> 's"
where
  "check_loop type array n i s =
     (if i < n
      then (case check type (entry array i) s of
              (Inl e, s') \<Rightarrow> (Inl e, s')
            | (Inr u, s') \<Rightarrow> check_loop type array n (i + 1) s')
      else (Inr (), s))"
  by pat_completeness auto
termination
  by (relation "measure (\<lambda>(type, array, n, i, s). n - i)") auto

declare check_loop.simps [simp del]

text \<open>
  \<open>HashInput.append\<close> and \<open>HashInput.empty\<close> come from
  \<open>bindings/lib/provable-snarky.js\<close>, which is not among the sources: they are the
  parameters \<open>HashInput_append\<close> and \<open>HashInput_empty\<close>.
  \<open>array.reduce((curr, value) => HashInput.append(curr, type.toInput(value)), HashInput.empty)\<close>
  is the left fold below.
\<close>

fun toInput_reduce ::
  "('h \<Rightarrow> 'h \<Rightarrow> 'h) \<Rightarrow> ('a \<Rightarrow> error + 'h) \<Rightarrow> 'h \<Rightarrow> 'a list \<Rightarrow> error + 'h" where
  "toInput_reduce HashInput_append f curr' [] = Inr curr'"
| "toInput_reduce HashInput_append f curr' (value # rest) =
     (case f value of
        Inl e \<Rightarrow> Inl e
      | Inr h \<Rightarrow> toInput_reduce HashInput_append f (HashInput_append curr' h) rest)"

definition provableArray ::
  "('h \<Rightarrow> 'h \<Rightarrow> 'h) \<Rightarrow> 'h \<Rightarrow> ('a, 'j, 'h, 's) Provable \<Rightarrow> nat
     \<Rightarrow> ('a list, 'j list, 'h, 's) Provable"
where
  "provableArray HashInput_append HashInput_empty type length' =
     \<lparr> sizeInFields = (let elementLength = sizeInFields type in elementLength * length'),
       toFields = (\<lambda>array. concat (map (\<lambda>e. toFields type e) array)),
       toAuxiliary = (\<lambda>array.
          let array' = (case array of
                          None \<Rightarrow> replicate length' None
                        | Some xs \<Rightarrow> map Some xs)
          in Arr (map (\<lambda>e. toAuxiliary type e) array')),
       fromFields = (\<lambda>flds aux.
          fromFields_loop type flds aux (sizeInFields type) length' 0 0 []),
       check = (\<lambda>array s.
          case array of
            None \<Rightarrow>
              if 0 < length'
              then (Inl (Error ''TypeError: Cannot read properties of undefined''), s)
              else (Inr (), s)
          | Some xs \<Rightarrow> check_loop type xs length' 0 s),
       toJSON = Some (\<lambda>array.
          case toJSON type of
            None \<Rightarrow> Inl (Error ''circuitArray.toJSON: element type has no toJSON method'')
          | Some f \<Rightarrow> map_throwing f array),
       fromJSON = Some (\<lambda>json.
          case fromJSON type of
            None \<Rightarrow> Inl (Error ''circuitArray.fromJSON: element type has no fromJSON method'')
          | Some f \<Rightarrow> map_throwing f json),
       toInput = Some (\<lambda>array.
          case toInput type of
            None \<Rightarrow> Inl (Error ''circuitArray.toInput: element type has no toInput method'')
          | Some f \<Rightarrow> toInput_reduce HashInput_append f HashInput_empty array) \<rparr>"

section \<open>The execution context stack\<close>

text \<open>
  Modelled from the spec: \<open>Context\<close> (\<open>global-context.js\<close>) and the mode predicate
  \<open>inCheckedComputation\<close> (\<open>proof_system.js\<close>) are not among the sources. A frame
  holds the four flags of the data model; frames form a stack over an ambient frame with
  no flag set; \<open>enter(overrides)\<close> overlays the current frame with \<open>overrides\<close> and
  returns an identifier; \<open>leave(id)\<close> must name the frame entered last and restores the
  one before; every mode predicate reads the current frame.
\<close>

record frame =
  inCheckedComputation :: bool
  inProver :: bool
  inAnalyze :: bool
  inWitnessBlock :: bool

record overrides =
  set_inCheckedComputation :: "bool option"
  set_inProver :: "bool option"
  set_inAnalyze :: "bool option"
  set_inWitnessBlock :: "bool option"

definition ambient_frame :: frame where
  "ambient_frame =
     \<lparr> inCheckedComputation = False, inProver = False, inAnalyze = False,
       inWitnessBlock = False \<rparr>"

definition no_overrides :: overrides where
  "no_overrides =
     \<lparr> set_inCheckedComputation = None, set_inProver = None, set_inAnalyze = None,
       set_inWitnessBlock = None \<rparr>"

text \<open>The object spread \<open>{...ctx}\<close>: every flag of \<open>ctx\<close> becomes an override.\<close>

definition spread :: "frame \<Rightarrow> overrides" where
  "spread ctx =
     \<lparr> set_inCheckedComputation = Some (inCheckedComputation ctx),
       set_inProver = Some (inProver ctx),
       set_inAnalyze = Some (inAnalyze ctx),
       set_inWitnessBlock = Some (inWitnessBlock ctx) \<rparr>"

definition overlay :: "frame \<Rightarrow> overrides \<Rightarrow> frame" where
  "overlay parent ov =
     \<lparr> inCheckedComputation =
         (case set_inCheckedComputation ov of None \<Rightarrow> inCheckedComputation parent | Some b \<Rightarrow> b),
       inProver = (case set_inProver ov of None \<Rightarrow> inProver parent | Some b \<Rightarrow> b),
       inAnalyze = (case set_inAnalyze ov of None \<Rightarrow> inAnalyze parent | Some b \<Rightarrow> b),
       inWitnessBlock =
         (case set_inWitnessBlock ov of None \<Rightarrow> inWitnessBlock parent | Some b \<Rightarrow> b) \<rparr>"

section \<open>The memoization record and the state of the program\<close>

text \<open>
  \<open>memoized\<close> is a JavaScript array written by index: a slot never written reads as
  \<open>undefined\<close>, and a write beyond the end extends the array. It is a map from indices
  to slots.
\<close>

record memo_slot =
  slot_fields :: "Field list"
  slot_aux :: any

record memo =
  memoized :: "nat \<Rightarrow> memo_slot option"
  currentIndex :: nat
  blindingValue :: "Field option"

record JsonGate =
  json_typ :: string
  wires :: "(nat \<times> nat) list"
  coeffs :: "int list list"

record cs_json =
  gates :: "JsonGate list"
  public_input_size :: nat

record snarky_cs =
  rows :: nat
  digest :: string
  json :: cs_json

text \<open>
  Everything the functions of \<open>provable.ts\<close> read and write besides their arguments:
  \<^item> \<open>snarkContext\<close>, the stack of entered frames with their identifiers, the current
    frame first, and the next identifier \<open>enter\<close> hands out;
  \<^item> \<open>memoizationContext\<close>, the stack of memoization records, the current one first;
  \<^item> the backend: whether it runs prover callbacks (\<open>has_witness\<close>), the next free
    variable, the values the prover has bound to variables, and the constraint system it
    is recording;
  \<^item> the random source behind \<open>Field.random\<close>: a tape and the position on it.
\<close>

record state =
  snarkContext :: "(frame \<times> nat) list"
  next_context_id :: nat
  memoizationContext :: "memo list"
  has_witness :: bool
  next_var :: nat
  var_values :: "nat \<Rightarrow> nat option"
  constraint_system :: snarky_cs
  random_tape :: "nat \<Rightarrow> nat"
  random_pos :: nat

type_synonym 'a computation = "state \<Rightarrow> (error + 'a) \<times> state"

text \<open>
  Modelled from the spec: the operations of \<open>Context\<close> on \<open>snarkContext\<close>
  (\<open>global-context.js\<close>) and \<open>inCheckedComputation()\<close> (\<open>proof_system.js\<close>).
  \<open>get\<close> reads the current frame, the ambient one when none is entered;
  \<open>inCheckedComputation()\<close> reads its flag; \<open>enter\<close> pushes the overlay of the current
  frame with the overrides under a fresh identifier; \<open>leave(id)\<close> pops the current frame
  when \<open>id\<close> is its identifier and throws otherwise.
\<close>

definition snarkContext_get :: "state \<Rightarrow> frame" where
  "snarkContext_get s = (case snarkContext s of [] \<Rightarrow> ambient_frame | (ctx, i) # rest \<Rightarrow> ctx)"

definition inCheckedComputation_now :: "state \<Rightarrow> bool" where
  "inCheckedComputation_now s = inCheckedComputation (snarkContext_get s)"

definition snarkContext_enter :: "overrides \<Rightarrow> state \<Rightarrow> nat \<times> state" where
  "snarkContext_enter ov s =
     (let i = next_context_id s
      in (i, s\<lparr> snarkContext := (overlay (snarkContext_get s) ov, i) # snarkContext s,
                next_context_id := i + 1 \<rparr>))"

definition contextConflictMessage :: string where
  "contextConflictMessage = ''context conflict: frames must be left in the order they were entered''"

definition snarkContext_leave :: "nat \<Rightarrow> frame computation" where
  "snarkContext_leave i s =
     (case snarkContext s of
        [] \<Rightarrow> (Inl (Error contextConflictMessage), s)
      | (ctx, j) # rest \<Rightarrow>
          if j = i then (Inr ctx, s\<lparr> snarkContext := rest \<rparr>)
          else (Inl (Error contextConflictMessage), s))"

text \<open>
  Modelled from the spec: \<open>runWith(overrides, func)\<close> of \<open>Context\<close>. It enters a frame,
  runs \<open>func\<close> and leaves the frame on every exit path; the result is the pair of the
  frame left and the value of \<open>func\<close>.
\<close>

definition snarkContext_runWith :: "overrides \<Rightarrow> 'a computation \<Rightarrow> (frame \<times> 'a) computation" where
  "snarkContext_runWith ov func s =
     (case snarkContext_enter ov s of
        (i, s1) \<Rightarrow>
          (case func s1 of
             (r, s2) \<Rightarrow>
               (case snarkContext_leave i s2 of
                  (Inl e, s3) \<Rightarrow> (Inl e, s3)
                | (Inr ctx, s3) \<Rightarrow>
                    (case r of Inl e \<Rightarrow> (Inl e, s3) | Inr x \<Rightarrow> (Inr (ctx, x), s3)))))"

text \<open>A write to the current memoization record (\<open>context.field = ...\<close>).\<close>

definition memo_update :: "(memo \<Rightarrow> memo) \<Rightarrow> state \<Rightarrow> state" where
  "memo_update f s =
     s\<lparr> memoizationContext :=
          (case memoizationContext s of [] \<Rightarrow> [] | context # rest \<Rightarrow> f context # rest) \<rparr>"

section \<open>The backend\<close>

text \<open>
  Modelled from the spec: \<open>Field.random\<close> and \<open>Field.toConstant\<close> (\<open>snarky.js\<close>).
  \<open>random\<close> draws the next value of the random source. \<open>toConstant\<close> detaches a field
  element from its variable: a constant is returned as it is, a variable is read, which
  fails when the prover has bound no value to it.
\<close>

definition Field_random :: "state \<Rightarrow> Field \<times> state" where
  "Field_random s = (Constant (random_tape s (random_pos s)), s\<lparr> random_pos := random_pos s + 1 \<rparr>)"

fun toConstant :: "state \<Rightarrow> Field \<Rightarrow> error + Field" where
  "toConstant s (Constant c) = Inr (Constant c)"
| "toConstant s (Var i) =
     (case var_values s i of
        None \<Rightarrow> Inl (Error ''cannot read the value of a variable outside the prover'')
      | Some c \<Rightarrow> Inr (Constant c))"

fun constant_value :: "Field \<Rightarrow> nat option" where
  "constant_value (Constant c) = Some c"
| "constant_value (Var i) = None"

text \<open>
  Modelled from the spec: the variable allocation primitive \<open>Snarky.exists\<close>. With prover
  values at hand it runs the callback and binds each field value the callback returns to
  a fresh variable; in symbolic execution it does not run the callback and returns
  \<open>size\<close> fresh variables as placeholders. The callback of \<open>witness\<close> assigns the captured
  variable \<open>proverValue\<close>; here the callback returns that value beside the fields, and
  \<open>Snarky_exists\<close> passes it on (\<open>None\<close>: never assigned, JavaScript's \<open>undefined\<close>).
\<close>

definition Snarky_exists ::
  "nat \<Rightarrow> (Field list \<times> 'p) computation \<Rightarrow> (Field list \<times> 'p option) computation" where
  "Snarky_exists size' compute s =
     (if has_witness s
      then (case compute s of
              (Inl e, s1) \<Rightarrow> (Inl e, s1)
            | (Inr (flds, p), s1) \<Rightarrow>
                (case map_throwing (toConstant s1) flds of
                   Inl e \<Rightarrow> (Inl e, s1)
                 | Inr cs \<Rightarrow>
                     let n = next_var s1
                     in (Inr (map Var [n..<n + length cs], Some p),
                         s1\<lparr> next_var := n + length cs,
                             var_values := (\<lambda>i. if n \<le> i \<and> i < n + length cs
                                                then constant_value (cs ! (i - n))
                                                else var_values s1 i) \<rparr>)))
      else (let n = next_var s
            in (Inr (map Var [n..<n + size'], None), s\<lparr> next_var := n + size' \<rparr>)))"

text \<open>
  Modelled from the spec: the symbolic analysis primitive \<open>Snarky.constraintSystem\<close>. It
  runs the callback with symbolic placeholders in place of prover values and returns row
  count, digest and gates of the constraint system recorded meanwhile. Emitting gates and
  computing the digest is the backend's business: the recording is the component
  \<open>constraint_system\<close> of the state, as the callback's backend operations leave it. The
  callback of \<open>constraintSystem\<close> assigns the captured variable \<open>result\<close>; here it is
  returned beside the constraint system.
\<close>

definition Snarky_constraintSystem :: "'r computation \<Rightarrow> (snarky_cs \<times> 'r) computation" where
  "Snarky_constraintSystem f s =
     (case f (s\<lparr> has_witness := False \<rparr>) of
        (Inl e, s1) \<Rightarrow> (Inl e, s1\<lparr> has_witness := has_witness s \<rparr>)
      | (Inr r, s1) \<Rightarrow> (Inr (constraint_system s1, r), s1\<lparr> has_witness := has_witness s \<rparr>))"

section \<open>The witness engine\<close>

definition clone :: "('a, 'j, 'h, state) Provable \<Rightarrow> 'a \<Rightarrow> 'a" where
  "clone type value =
     (let flds = toFields type value;
          aux = toAuxiliary type (Some value)
      in fromFields type flds aux)"

text \<open>
  The callback \<open>witness\<close> hands to \<open>Snarky.exists\<close>: it runs \<open>compute\<close>, keeps the
  result in \<open>proverValue\<close> and returns its fields. The check of their number against
  \<open>sizeInFields\<close> is commented out in the source, so there is none here.
\<close>

definition witness_callback ::
  "('a, 'j, 'h, state) Provable \<Rightarrow> 'a computation \<Rightarrow> (Field list \<times> 'a) computation" where
  "witness_callback type compute t =
     (case compute t of
        (Inl e, t1) \<Rightarrow> (Inl e, t1)
      | (Inr proverValue, t1) \<Rightarrow>
          (let flds = toFields type proverValue
           in (Inr (flds, proverValue), t1)))"

text \<open>
  \<open>Provable.witness\<close>. The \<open>try ... finally\<close> around \<open>Snarky.exists\<close> is the
  \<open>snarkContext_leave\<close> that runs on the state \<open>exists\<close> ends in, whether it returned
  or threw; a throw of \<open>leave\<close> itself replaces the pending outcome.
\<close>

definition witness :: "('a, 'j, 'h, state) Provable \<Rightarrow> 'a computation \<Rightarrow> 'a computation" where
  "witness type compute s =
     (let ctx = snarkContext_get s
      in if \<not> inCheckedComputation_now s \<or> inWitnessBlock ctx
         then (case compute s of
                 (Inl e, s1) \<Rightarrow> (Inl e, s1)
               | (Inr v, s1) \<Rightarrow> (Inr (clone type v), s1))
         else (case snarkContext_enter ((spread ctx)\<lparr> set_inWitnessBlock := Some True \<rparr>) s of
                 (i, s1) \<Rightarrow>
                   (case Snarky_exists (sizeInFields type) (witness_callback type compute) s1 of
                      (r, s2) \<Rightarrow>
                        (case snarkContext_leave i s2 of
                           (Inl e, s3) \<Rightarrow> (Inl e, s3)
                         | (Inr left, s3) \<Rightarrow>
                             (case r of
                                Inl e \<Rightarrow> (Inl e, s3)
                              | Inr (flds, proverValue) \<Rightarrow>
                                  (let aux = toAuxiliary type proverValue;
                                       value = fromFields type flds aux
                                   in case check type (Some value) s3 of
                                        (Inl e, s4) \<Rightarrow> (Inl e, s4)
                                      | (Inr u, s4) \<Rightarrow> (Inr value, s4)))))))"

section \<open>The memoization layer\<close>

text \<open>
  The callback that \<open>memoizeWitness\<close> hands to \<open>Provable.witness\<close>. \<open>memoized\<close> and
  \<open>context\<close> are references to objects of the memoization context taken before
  \<open>compute\<close> runs; the writes after it go to the current record of the state
  \<open>compute\<close> ends in, which is that object as long as \<open>compute\<close> leaves the stack of
  memoization contexts in place. \<open>currentIndex\<close> is the number read before
  \<open>compute\<close>; \<open>context.currentIndex += 1\<close> reads the record again.
\<close>

definition memoizeWitness_callback ::
  "('a, 'j, 'h, state) Provable \<Rightarrow> 'a computation \<Rightarrow> 'a computation" where
  "memoizeWitness_callback type compute s =
     (case memoizationContext s of
        [] \<Rightarrow> compute s
      | context # rest \<Rightarrow>
          (let currentIndex' = currentIndex context
           in case memoized context currentIndex' of
                None \<Rightarrow>
                  (case compute s of
                     (Inl e, s1) \<Rightarrow> (Inl e, s1)
                   | (Inr value, s1) \<Rightarrow>
                       (case map_throwing (toConstant s1) (toFields type value) of
                          Inl e \<Rightarrow> (Inl e, s1)
                        | Inr flds \<Rightarrow>
                            (let aux = toAuxiliary type (Some value);
                                 currentValue = \<lparr> slot_fields = flds, slot_aux = aux \<rparr>;
                                 s2 = memo_update
                                        (\<lambda>c. c\<lparr> memoized := (memoized c)(currentIndex' \<mapsto> currentValue) \<rparr>) s1;
                                 s3 = memo_update (\<lambda>c. c\<lparr> currentIndex := currentIndex c + 1 \<rparr>) s2
                             in (Inr (fromFields type (slot_fields currentValue) (slot_aux currentValue)),
                                 s3))))
              | Some currentValue \<Rightarrow>
                  (let s1 = memo_update (\<lambda>c. c\<lparr> currentIndex := currentIndex c + 1 \<rparr>) s
                   in (Inr (fromFields type (slot_fields currentValue) (slot_aux currentValue)),
                       s1))))"

definition memoizeWitness ::
  "('a, 'j, 'h, state) Provable \<Rightarrow> 'a computation \<Rightarrow> 'a computation" where
  "memoizeWitness type compute = witness type (memoizeWitness_callback type compute)"

definition getBlindingValue :: "state \<Rightarrow> Field \<times> state" where
  "getBlindingValue s =
     (case memoizationContext s of
        [] \<Rightarrow> Field_random s
      | context # rest \<Rightarrow>
          (case blindingValue context of
             None \<Rightarrow>
               (case Field_random s of
                  (r, s1) \<Rightarrow> (r, memo_update (\<lambda>c. c\<lparr> blindingValue := Some r \<rparr>) s1))
           | Some b \<Rightarrow> (b, s)))"


section \<open>The constraint system analyzer\<close>

record Gate =
  gate_type :: string
  gate_wires :: "(nat \<times> nat) list"
  gate_coeffs :: "string list"

record decoded_cs =
  publicInputSize :: nat
  decoded_gates :: "Gate list"

record 'r analysis =
  analysis_rows :: nat
  analysis_digest :: string
  analysis_result :: 'r
  analysis_gates :: "Gate list"
  analysis_publicInputSize :: nat

text \<open>\<open>new Uint8Array(coefficient)\<close>: every number is reduced modulo \<open>2^8\<close>.\<close>

definition Uint8Array :: "int list \<Rightarrow> nat list" where
  "Uint8Array coefficient = map (\<lambda>b. nat (b mod 256)) coefficient"

text \<open>\<open>BigInt.prototype.toString()\<close> of a bigint that is not negative: its decimal digits.\<close>

definition digit_char :: "nat \<Rightarrow> char" where
  "digit_char d = ''0123456789'' ! d"

function toString :: "nat \<Rightarrow> string" where
  "toString n = (if n < 10 then [digit_char n] else toString (n div 10) @ [digit_char (n mod 10)])"
  by pat_completeness auto
termination
  by (relation "measure (\<lambda>n. n)") auto

declare toString.simps [simp del]

text \<open>
  \<open>bytesToBigInt\<close> comes from \<open>bindings/crypto/bigint-helpers.js\<close>, which is not among
  the sources, and the specification leaves the byte order open: it is the parameter
  \<open>bytesToBigInt\<close>. The inner loop over \<open>byteCoeffs\<close> pushes one string for each
  coefficient, in order.
\<close>

definition gatesFromJson :: "(nat list \<Rightarrow> nat) \<Rightarrow> cs_json \<Rightarrow> decoded_cs" where
  "gatesFromJson bytesToBigInt cs =
     (let gates' =
            map (\<lambda>g. \<lparr> gate_type = json_typ g,
                       gate_wires = wires g,
                       gate_coeffs =
                         map (\<lambda>coefficient.
                                let arr = Uint8Array coefficient
                                in toString (bytesToBigInt arr))
                             (coeffs g) \<rparr>)
                (gates cs)
      in \<lparr> publicInputSize = public_input_size cs, decoded_gates = gates' \<rparr>)"

definition analyze_overrides :: overrides where
  "analyze_overrides =
     no_overrides\<lparr> set_inAnalyze := Some True, set_inCheckedComputation := Some True \<rparr>"

definition constraintSystem ::
  "(nat list \<Rightarrow> nat) \<Rightarrow> 'r computation \<Rightarrow> ('r analysis) computation" where
  "constraintSystem bytesToBigInt f s =
     (case snarkContext_runWith analyze_overrides
             (\<lambda>t. case Snarky_constraintSystem f t of
                     (Inl e, t1) \<Rightarrow> (Inl e, t1)
                   | (Inr (cs, result), t1) \<Rightarrow>
                       (let d = gatesFromJson bytesToBigInt (json cs)
                        in (Inr \<lparr> analysis_rows = rows cs,
                                  analysis_digest = digest cs,
                                  analysis_result = result,
                                  analysis_gates = decoded_gates d,
                                  analysis_publicInputSize = publicInputSize d \<rparr>,
                            t1)))
             s of
        (Inl e, s1) \<Rightarrow> (Inl e, s1)
      | (Inr (ctx, result), s1) \<Rightarrow> (Inr result, s1))"

text \<open>The value of a string of decimal digits, most significant digit first.\<close>

definition digit_value :: "char \<Rightarrow> nat" where
  "digit_value c = of_char c - 48"

definition decimal_value :: "string \<Rightarrow> nat" where
  "decimal_value str = foldl (\<lambda>acc c. 10 * acc + digit_value c) 0 str"

text \<open>A byte decoder to run the analyzer on: little-endian, least significant byte first.\<close>

fun bytes_le :: "nat list \<Rightarrow> nat" where
  "bytes_le [] = 0"
| "bytes_le (b # bs) = b + 256 * bytes_le bs"

section \<open>Notions the statements use\<close>



text \<open>
  \<open>witness\<close> goes through the backend, and the backend runs the prover callback: a
  checked computation outside a witness block, with prover values at hand.
\<close>

definition runs_prover :: "state \<Rightarrow> bool" where
  "runs_prover s =
     (inCheckedComputation_now s \<and> \<not> inWitnessBlock (snarkContext_get s) \<and> has_witness s)"







text \<open>
  The state in which the callback of \<open>witness\<close> starts when \<open>witness\<close> goes through
  the backend: the one \<open>snarkContext.enter({ ...ctx, inWitnessBlock: true })\<close> leaves.
\<close>

definition witness_block_entry :: "state \<Rightarrow> state" where
  "witness_block_entry s =
     snd (snarkContext_enter ((spread (snarkContext_get s))\<lparr> set_inWitnessBlock := Some True \<rparr>) s)"

text \<open>
  The state in which the callback of \<open>constraintSystem\<close> starts: the frame of
  \<open>runWith\<close> is entered and the backend executes symbolically.
\<close>

definition analysis_entry :: "state \<Rightarrow> state" where
  "analysis_entry s = (snd (snarkContext_enter analyze_overrides s))\<lparr> has_witness := False \<rparr>"

section \<open>Concrete descriptors, callbacks and states\<close>

text \<open>
  Modelled from the spec: a scalar type with \<open>sizeInFields = 1\<close>, the field element
  itself (\<open>Field\<close> of \<open>snarky.js\<close>): \<open>toFields(x) = [x]\<close>, no auxiliary data,
  \<open>fromFields([x]) = x\<close>, and a \<open>check\<close> that adds no constraint. On an empty list
  JavaScript's \<open>fromFields\<close> yields \<open>undefined\<close>, which is no field element; the
  model returns zero there, and no statement below reads it.
\<close>

definition Field_type :: "(Field, any, Field list, state) Provable" where
  "Field_type =
     \<lparr> sizeInFields = 1,
       toFields = (\<lambda>x. [x]),
       toAuxiliary = (\<lambda>x. Arr []),
       fromFields = (\<lambda>flds aux. case flds of [] \<Rightarrow> Constant 0 | x # rest \<Rightarrow> x),
       check = (\<lambda>x s. (Inr (), s)),
       toJSON = None,
       fromJSON = None,
       toInput = None \<rparr>"

text \<open>The same scalar type with the three optional codecs.\<close>

definition Field_toJSON :: "Field \<Rightarrow> error + any" where
  "Field_toJSON x =
     (case x of
        Constant c \<Rightarrow> Inr (Num (int c))
      | Var i \<Rightarrow> Inl (Error ''cannot print a variable''))"

definition Field_fromJSON :: "any \<Rightarrow> error + Field" where
  "Field_fromJSON j =
     (case j of
        Num c \<Rightarrow> Inr (Constant (nat c))
      | _ \<Rightarrow> Inl (Error ''not a number''))"

definition Field_type_extended :: "(Field, any, Field list, state) Provable" where
  "Field_type_extended =
     Field_type\<lparr> toJSON := Some Field_toJSON,
                 fromJSON := Some Field_fromJSON,
                 toInput := Some (\<lambda>x. Inr [x]) \<rparr>"

text \<open>
  A descriptor whose serialization is longer than the size it declares: two field
  elements for a declared size of one. It satisfies the round-trip law.
\<close>

definition wide_type :: "(nat, any, Field list, state) Provable" where
  "wide_type =
     \<lparr> sizeInFields = 1,
       toFields = (\<lambda>v. [Constant v, Constant v]),
       toAuxiliary = (\<lambda>v. Arr []),
       fromFields = (\<lambda>flds aux. case flds of [Constant a, Constant b] \<Rightarrow> a | _ \<Rightarrow> 0),
       check = (\<lambda>v s. (Inr (), s)),
       toJSON = None,
       fromJSON = None,
       toInput = None \<rparr>"

text \<open>The same descriptor with a \<open>check\<close> that no value passes.\<close>

definition unsatisfiable_type :: "(nat, any, Field list, state) Provable" where
  "unsatisfiable_type =
     wide_type\<lparr> check := (\<lambda>v s. (Inl (Error ''constraint unsatisfied''), s)) \<rparr>"

text \<open>A callback backed by the random source, and one that throws.\<close>

definition random_compute :: "Field computation" where
  "random_compute s = (case Field_random s of (r, s1) \<Rightarrow> (Inr r, s1))"

definition failing_compute :: "Field computation" where
  "failing_compute s = (Inl (Error ''compute failed''), s)"

definition empty_cs :: snarky_cs where
  "empty_cs = \<lparr> rows = 0, digest = [], json = \<lparr> gates = [], public_input_size = 0 \<rparr> \<rparr>"

text \<open>Plain evaluation: no frame entered, no memoization context, no prover.\<close>

definition plain_state :: state where
  "plain_state =
     \<lparr> snarkContext = [],
       next_context_id = 0,
       memoizationContext = [],
       has_witness = False,
       next_var = 0,
       var_values = (\<lambda>i. None),
       constraint_system = empty_cs,
       random_tape = (\<lambda>n. 7 * n + 3),
       random_pos = 0 \<rparr>"

text \<open>Checked computation with the prover at hand, outside and inside a witness block.\<close>

definition prover_frame :: frame where
  "prover_frame = ambient_frame\<lparr> inCheckedComputation := True, inProver := True \<rparr>"

definition prover_state :: state where
  "prover_state =
     plain_state\<lparr> snarkContext := [(prover_frame, 0)],
                  next_context_id := 1,
                  has_witness := True,
                  random_pos := 40 \<rparr>"

text \<open>Checked computation in symbolic execution: the backend runs no prover callback.\<close>

definition symbolic_state :: state where
  "symbolic_state = prover_state\<lparr> has_witness := False \<rparr>"

definition witness_block_state :: state where
  "witness_block_state =
     prover_state\<lparr> snarkContext := [(prover_frame\<lparr> inWitnessBlock := True \<rparr>, 1), (prover_frame, 0)],
                   next_context_id := 2 \<rparr>"

text \<open>A first pass under a fresh memoization record, and a later pass under the same record.\<close>

definition fresh_memo :: memo where
  "fresh_memo = \<lparr> memoized = (\<lambda>i. None), currentIndex = 0, blindingValue = None \<rparr>"

definition first_pass_state :: state where
  "first_pass_state = plain_state\<lparr> memoizationContext := [fresh_memo] \<rparr>"






text \<open>A callback for the analyzer: it leaves one gate with three coefficients in the backend.\<close>

definition recorded_cs :: snarky_cs where
  "recorded_cs =
     \<lparr> rows = 1,
       digest = ''d41d8'',
       json = \<lparr> gates = [\<lparr> json_typ = ''Generic'', wires = [(0, 0), (0, 1)],
                          coeffs = [[1, 0], [0, 1], [255, 255]] \<rparr>],
                public_input_size = 0 \<rparr> \<rparr>"

definition recording_callback :: "nat computation" where
  "recording_callback s = (Inr 42, s\<lparr> constraint_system := recorded_cs \<rparr>)"

section \<open>The array combinator: sizes and round trip\<close>

lemma fromFields_loop_map:
  "i \<le> n \<Longrightarrow>
   fromFields_loop T flds aux sz n i (i * sz) acc =
     acc @ map (\<lambda>k. fromFields T (slice flds (k * sz) (k * sz + sz)) (opt_index aux k)) [i..<n]"
proof (induction "n - i" arbitrary: i acc)
  case 0
  then show ?case by (simp add: fromFields_loop.simps)
next
  case (Suc d)
  then have lt: "i < n" and d: "d = n - (i + 1)" and le: "i + 1 \<le> n" by auto
  have step: "fromFields_loop T flds aux sz n i (i * sz) acc =
      fromFields_loop T flds aux sz n (i + 1) ((i + 1) * sz)
        (acc @ [fromFields T (slice flds (i * sz) (i * sz + sz)) (opt_index aux i)])"
    using lt by (subst fromFields_loop.simps) (simp add: algebra_simps)
  show ?case
    unfolding step Suc.hyps(1)[OF d le]
    using lt by (simp add: upt_conv_Cons)
qed

lemma chunk_of_concat:
  "\<forall>ys \<in> set xss. length ys = sz \<Longrightarrow> k < length xss \<Longrightarrow>
   slice (concat xss) (k * sz) (k * sz + sz) = xss ! k"
proof (induction xss arbitrary: k)
  case Nil
  then show ?case by simp
next
  case (Cons ys xss)
  show ?case
  proof (cases k)
    case 0
    with Cons.prems show ?thesis by (simp add: slice_def)
  next
    case (Suc j)
    with Cons.prems have "slice (concat xss) (j * sz) (j * sz + sz) = xss ! j"
      by (intro Cons.IH) auto
    with Cons.prems Suc show ?thesis by (simp add: slice_def)
  qed
qed

lemma length_concat_const:
  "\<forall>ys \<in> set xss. length ys = sz \<Longrightarrow> length (concat xss) = length xss * sz"
  by (induction xss) auto

lemma wide_type_round_trip: "round_trip_at wide_type v"
  by (simp add: round_trip_at_def wide_type_def)

lemma Field_type_laws: "size_law Field_type" "round_trip_at Field_type x"
  by (simp_all add: size_law_def round_trip_at_def Field_type_def)

text \<open>
  C5, as stated, fails: the round-trip law of the element descriptor alone is not enough.
  \<open>wide_type\<close> satisfies it and serializes every element to two fields for a declared
  size of one; \<open>fromFields\<close> of the array cuts the flat list into chunks of the declared
  size, so the array \<open>[1, 2]\<close> comes back as \<open>[0, 0]\<close>.
\<close>

theorem array_round_trip_counterexample:
  "round_trip_at wide_type 1 \<and> round_trip_at wide_type 2
   \<and> fromFields (provableArray (@) [] wide_type 2)
        (toFields (provableArray (@) [] wide_type 2) [1, 2])
        (toAuxiliary (provableArray (@) [] wide_type 2) (Some [1, 2])) = [0, 0]
   \<and> [0, 0] \<noteq> [1, 2 :: nat]"
  by (simp add: wide_type_round_trip)
     (simp add: provableArray_def wide_type_def fromFields_loop.simps slice_def)

text \<open>
  C5 (amended): for every element descriptor \<open>T\<close> that satisfies the round-trip law on the
  elements of \<open>xs\<close> and whose \<open>toFields\<close> always yields \<open>sizeInFields\<close> field elements,
  every length \<open>n\<close> and every array \<open>xs\<close> of \<open>n\<close> elements, \<open>fromFields\<close> of the array
  descriptor applied to \<open>toFields(xs)\<close> and \<open>toAuxiliary(xs)\<close> reconstructs \<open>xs\<close>,
  element by element and in order. For the scalar type with \<open>sizeInFields = 1\<close> and
  \<open>n = 5\<close>, \<open>toFields([1,2,3,4,5])\<close> is those five field elements in order, and
  \<open>fromFields\<close> on them reconstructs \<open>[1,2,3,4,5]\<close>, whatever auxiliary data it is given.
\<close>

theorem array_round_trip:
  assumes "size_law T" and "\<forall>x \<in> set xs. round_trip_at T x" and "length xs = n"
  shows "fromFields (provableArray A E T n) (toFields (provableArray A E T n) xs)
           (toAuxiliary (provableArray A E T n) (Some xs)) = xs
       \<and> toFields (provableArray (@) [] Field_type 5)
            [Constant 1, Constant 2, Constant 3, Constant 4, Constant 5]
           = [Constant 1, Constant 2, Constant 3, Constant 4, Constant 5]
       \<and> fromFields (provableArray (@) [] Field_type 5)
            [Constant 1, Constant 2, Constant 3, Constant 4, Constant 5] aux
           = [Constant 1, Constant 2, Constant 3, Constant 4, Constant 5]"
proof -
  have scenario: "toFields (provableArray (@) [] Field_type 5)
            [Constant 1, Constant 2, Constant 3, Constant 4, Constant 5]
           = [Constant 1, Constant 2, Constant 3, Constant 4, Constant 5]"
    "fromFields (provableArray (@) [] Field_type 5)
            [Constant 1, Constant 2, Constant 3, Constant 4, Constant 5] aux
           = [Constant 1, Constant 2, Constant 3, Constant 4, Constant 5]"
    by (simp_all add: provableArray_def Field_type_def fromFields_loop.simps slice_def)
  let ?flds = "concat (map (toFields T) xs)"
  let ?aux = "Arr (map (\<lambda>e. toAuxiliary T e) (map Some xs))"
  have chunks: "\<forall>ys \<in> set (map (toFields T) xs). length ys = sizeInFields T"
    using assms(1) by (auto simp: size_law_def)
  have elem: "fromFields T (slice ?flds (k * sizeInFields T) (k * sizeInFields T + sizeInFields T))
                (opt_index ?aux k) = xs ! k" if "k < n" for k
  proof -
    have "slice ?flds (k * sizeInFields T) (k * sizeInFields T + sizeInFields T) = toFields T (xs ! k)"
      using chunk_of_concat[OF chunks, of k] that assms(3) by simp
    moreover have "opt_index ?aux k = toAuxiliary T (Some (xs ! k))"
      using that assms(3) by simp
    moreover have "round_trip_at T (xs ! k)"
      using assms(2,3) that by simp
    ultimately show ?thesis by (simp add: round_trip_at_def)
  qed
  have "fromFields_loop T ?flds ?aux (sizeInFields T) n 0 (0 * sizeInFields T) [] =
        map (\<lambda>k. fromFields T (slice ?flds (k * sizeInFields T) (k * sizeInFields T + sizeInFields T))
                    (opt_index ?aux k)) [0..<n]"
    by (subst fromFields_loop_map) simp_all
  also have "\<dots> = map (\<lambda>k. xs ! k) [0..<n]"
    using elem by simp
  also have "\<dots> = xs"
    unfolding assms(3)[symmetric] by (rule map_nth)
  finally have "fromFields (provableArray A E T n) (toFields (provableArray A E T n) xs)
           (toAuxiliary (provableArray A E T n) (Some xs)) = xs"
    by (simp add: provableArray_def)
  with scenario show ?thesis
    by simp
qed

theorem array_round_trip_witness:
  "size_law Field_type
   \<and> toFields (provableArray (@) [] Field_type 5)
        [Constant 1, Constant 2, Constant 3, Constant 4, Constant 5]
       = [Constant 1, Constant 2, Constant 3, Constant 4, Constant 5]
   \<and> fromFields (provableArray (@) [] Field_type 5)
        (toFields (provableArray (@) [] Field_type 5)
           [Constant 1, Constant 2, Constant 3, Constant 4, Constant 5])
        (toAuxiliary (provableArray (@) [] Field_type 5)
           (Some [Constant 1, Constant 2, Constant 3, Constant 4, Constant 5]))
       = [Constant 1, Constant 2, Constant 3, Constant 4, Constant 5]
   \<and> fromFields (provableArray (@) [] Field_type 5)
        [Constant 1, Constant 2, Constant 3, Constant 4, Constant 5] Undefined
       = [Constant 1, Constant 2, Constant 3, Constant 4, Constant 5]"
proof -
  let ?xs = "[Constant 1, Constant 2, Constant 3, Constant 4, Constant 5]"
  have law: "size_law Field_type" by (rule Field_type_laws)
  have rt: "\<forall>x \<in> set ?xs. round_trip_at Field_type x" by (simp add: Field_type_laws)
  have len: "length ?xs = 5" by simp
  have ser: "toFields (provableArray (@) [] Field_type 5) ?xs = ?xs"
    by (simp add: provableArray_def Field_type_def)
  have bare: "fromFields (provableArray (@) [] Field_type 5) ?xs Undefined = ?xs"
    by (simp add: provableArray_def Field_type_def fromFields_loop.simps slice_def)
  show ?thesis
    using array_round_trip[OF law rt len, of "(@)" "[]"] law ser bare by simp
qed

text \<open>
  C6, as stated, fails for an element descriptor whose serialization does not have the
  declared size: one element of \<open>wide_type\<close> serializes to two fields, not to
  \<open>1 * sizeInFields\<close>.
\<close>

theorem array_length_counterexample:
  "length [7 :: nat] = 1
   \<and> length (toFields (provableArray (@) [] wide_type 1) [7]) = 2
   \<and> 1 * sizeInFields wide_type = 1"
  by (simp add: provableArray_def wide_type_def)

text \<open>
  C6 (amended): \<open>sizeInFields\<close> of the array descriptor is \<open>n * sizeInFields(T)\<close>;
  \<open>toFields(xs)\<close> is the concatenation of the serializations of the elements, in order;
  and when \<open>toFields\<close> of \<open>T\<close> always yields \<open>sizeInFields(T)\<close> field elements, it has
  length \<open>n * sizeInFields(T)\<close> for every \<open>xs\<close> of length \<open>n\<close>.
\<close>

theorem array_sizes:
  "sizeInFields (provableArray A E T n) = n * sizeInFields T
   \<and> toFields (provableArray A E T n) xs = concat (map (toFields T) xs)
   \<and> (size_law T \<and> length xs = n \<longrightarrow>
        length (toFields (provableArray A E T n) xs) = n * sizeInFields T)"
  using length_concat_const[of "map (toFields T) xs" "sizeInFields T"]
  by (simp add: provableArray_def size_law_def)

theorem array_sizes_witness:
  "size_law Field_type \<and> length [Constant 4, Var 2, Constant 9] = 3
   \<and> sizeInFields (provableArray (@) [] Field_type 3) = 3
   \<and> length (toFields (provableArray (@) [] Field_type 3) [Constant 4, Var 2, Constant 9]) = 3
   \<and> toFields (provableArray (@) [] Field_type 3) [Constant 4, Var 2, Constant 9]
       = [Constant 4, Var 2, Constant 9]"
  using array_sizes[of "(@)" "[]" Field_type 3 "[Constant 4, Var 2, Constant 9]"]
  by (simp add: Field_type_laws) (simp add: Field_type_def)

section \<open>The array combinator: optional capabilities\<close>

lemma map_throwing_length: "map_throwing f xs = Inr ys \<Longrightarrow> length ys = length xs"
  by (induction xs arbitrary: ys) (auto split: sum.splits)

lemma map_throwing_total:
  "\<forall>x \<in> set xs. \<exists>y. f x = Inr y \<Longrightarrow> \<exists>ys. map_throwing f xs = Inr ys"
  by (induction xs) (auto split: sum.splits)

lemma toInput_reduce_total:
  "\<forall>x \<in> set xs. \<exists>y. f x = Inr y \<Longrightarrow> \<exists>h. toInput_reduce A f c xs = Inr h"
  by (induction xs arbitrary: c) (auto split: sum.splits)

text \<open>
  C7: the array descriptor always has the three methods. Called on an element descriptor
  that lacks \<open>toJSON\<close>, \<open>fromJSON\<close> or \<open>toInput\<close>, the method of that name throws at
  once, with a message that names the missing method; on an element descriptor that has
  it, the method delegates to it element by element (\<open>toInput\<close>: folding the results with
  \<open>HashInput.append\<close>) and returns whenever the element's method returns on every
  element.
\<close>

theorem array_capabilities:
  fixes T :: "('a, 'j, 'h, 's) Provable"
  shows
  "call_method (toJSON (provableArray A E T n)) xs =
     (case toJSON T of
        None \<Rightarrow> Inl (Error ''circuitArray.toJSON: element type has no toJSON method'')
      | Some f \<Rightarrow> map_throwing f xs)
   \<and> call_method (fromJSON (provableArray A E T n)) js =
     (case fromJSON T of
        None \<Rightarrow> Inl (Error ''circuitArray.fromJSON: element type has no fromJSON method'')
      | Some f \<Rightarrow> map_throwing f js)
   \<and> call_method (toInput (provableArray A E T n)) xs =
     (case toInput T of
        None \<Rightarrow> Inl (Error ''circuitArray.toInput: element type has no toInput method'')
      | Some f \<Rightarrow> toInput_reduce A f E xs)
   \<and> (\<forall>f. toJSON T = Some f \<and> (\<forall>x \<in> set xs. \<exists>y. f x = Inr y) \<longrightarrow>
          (\<exists>ys. call_method (toJSON (provableArray A E T n)) xs = Inr ys))
   \<and> (\<forall>f. fromJSON T = Some f \<and> (\<forall>x \<in> set js. \<exists>y. f x = Inr y) \<longrightarrow>
          (\<exists>ys. call_method (fromJSON (provableArray A E T n)) js = Inr ys))
   \<and> (\<forall>f. toInput T = Some f \<and> (\<forall>x \<in> set xs. \<exists>y. f x = Inr y) \<longrightarrow>
          (\<exists>h. call_method (toInput (provableArray A E T n)) xs = Inr h))"
  by (simp add: provableArray_def call_method_def)
     (blast intro: map_throwing_total toInput_reduce_total)

theorem array_capabilities_witness:
  "toJSON Field_type = None \<and> toJSON Field_type_extended = Some Field_toJSON
   \<and> call_method (toJSON (provableArray (@) [] Field_type 2)) [Constant 4, Constant 9]
       = Inl (Error ''circuitArray.toJSON: element type has no toJSON method'')
   \<and> call_method (fromJSON (provableArray (@) [] Field_type 2)) [Num 4, Num 9]
       = Inl (Error ''circuitArray.fromJSON: element type has no fromJSON method'')
   \<and> call_method (toInput (provableArray (@) [] Field_type 2)) [Constant 4, Constant 9]
       = Inl (Error ''circuitArray.toInput: element type has no toInput method'')
   \<and> call_method (toJSON (provableArray (@) [] Field_type_extended 2)) [Constant 4, Constant 9]
       = Inr [Num 4, Num 9]
   \<and> call_method (fromJSON (provableArray (@) [] Field_type_extended 2)) [Num 4, Num 9]
       = Inr [Constant 4, Constant 9]
   \<and> call_method (toInput (provableArray (@) [] Field_type_extended 2)) [Constant 4, Constant 9]
       = Inr [Constant 4, Constant 9]"
  using array_capabilities[of "(@)" "[]" Field_type 2 "[Constant 4, Constant 9]" "[Num 4, Num 9]"]
    array_capabilities[of "(@)" "[]" Field_type_extended 2 "[Constant 4, Constant 9]" "[Num 4, Num 9]"]
  by (simp add: Field_type_def Field_type_extended_def Field_toJSON_def Field_fromJSON_def)

section \<open>The constraint system analyzer\<close>

lemma digit_in_range: "(d :: nat) < 10 \<Longrightarrow> d \<in> {0, 1, 2, 3, 4, 5, 6, 7, 8, 9}"
  by auto

lemma digit_value_digit_char: "d < 10 \<Longrightarrow> digit_value (digit_char d) = d"
  using digit_in_range[of d] by (auto simp: digit_value_def digit_char_def)

lemma digit_char_in: "d < 10 \<Longrightarrow> digit_char d \<in> set ''0123456789''"
  unfolding digit_char_def by (rule nth_mem) simp

lemma decimal_value_snoc:
  "decimal_value (str @ [c]) = 10 * decimal_value str + digit_value c"
  by (simp add: decimal_value_def)

lemma decimal_value_toString: "decimal_value (toString n) = n"
proof (induction n rule: toString.induct)
  case (1 n)
  show ?case
  proof (cases "n < 10")
    case True
    then show ?thesis
      by (subst toString.simps) (simp add: decimal_value_def digit_value_digit_char)
  next
    case False
    then have "decimal_value (toString (n div 10)) = n div 10"
      using 1 by simp
    then show ?thesis
      using False
      by (subst toString.simps) (simp add: decimal_value_snoc digit_value_digit_char)
  qed
qed

lemma toString_digits: "set (toString n) \<subseteq> set ''0123456789''"
proof (induction n rule: toString.induct)
  case (1 n)
  show ?case
  proof (cases "n < 10")
    case True
    then show ?thesis
      using digit_char_in[of n] by (subst toString.simps) simp
  next
    case False
    then have "set (toString (n div 10)) \<subseteq> set ''0123456789''"
      using 1 by simp
    moreover have "digit_char (n mod 10) \<in> set ''0123456789''"
      by (rule digit_char_in) simp
    ultimately show ?thesis
      using False by (subst toString.simps) simp
  qed
qed

lemma analysis_entry_flags:
  "inAnalyze (snarkContext_get (analysis_entry s)) \<and> inCheckedComputation_now (analysis_entry s)"
  by (simp add: analysis_entry_def snarkContext_enter_def Let_def snarkContext_get_def
        inCheckedComputation_now_def analyze_overrides_def no_overrides_def overlay_def)

lemma constraintSystem_returns:
  assumes "f (analysis_entry s) = (Inr r, t)"
    and "snarkContext t = snarkContext (analysis_entry s)"
  shows "constraintSystem b f s =
           (Inr \<lparr> analysis_rows = rows (constraint_system t),
                  analysis_digest = digest (constraint_system t),
                  analysis_result = r,
                  analysis_gates = decoded_gates (gatesFromJson b (json (constraint_system t))),
                  analysis_publicInputSize = public_input_size (json (constraint_system t)) \<rparr>,
            t\<lparr> has_witness := has_witness s, snarkContext := snarkContext s \<rparr>)"
  using assms
  by (simp add: constraintSystem_def snarkContext_runWith_def Snarky_constraintSystem_def
        analysis_entry_def snarkContext_enter_def snarkContext_leave_def Let_def gatesFromJson_def)

lemma gatesFromJson_gate:
  assumes "i < length (gates cs)"
  shows "decoded_gates (gatesFromJson b cs) ! i =
           \<lparr> gate_type = json_typ (gates cs ! i),
             gate_wires = wires (gates cs ! i),
             gate_coeffs = map (\<lambda>c. toString (b (Uint8Array c))) (coeffs (gates cs ! i)) \<rparr>"
  using assms by (simp add: gatesFromJson_def)

lemma gatesFromJson_length: "length (decoded_gates (gatesFromJson b cs)) = length (gates cs)"
  by (simp add: gatesFromJson_def)

text \<open>
  C8: \<open>constraintSystem(f)\<close> runs \<open>f\<close> in a frame in which \<open>inAnalyze\<close> and
  \<open>inCheckedComputation\<close> are both set. When \<open>f\<close> returns there (leaving the stack of
  frames as it found it), \<open>constraintSystem\<close> leaves that frame and returns the
  backend's row count and digest, the result of \<open>f\<close>, and one gate for each gate of the
  backend, in order, with the same type tag and wires and one coefficient string for each
  byte-encoded coefficient, in order: the decimal digits of the unsigned integer the bytes
  encode.
\<close>

theorem constraintSystem_result:
  assumes "f (analysis_entry s) = (Inr r, t)"
    and "snarkContext t = snarkContext (analysis_entry s)"
  shows "inAnalyze (snarkContext_get (analysis_entry s))
       \<and> inCheckedComputation_now (analysis_entry s)
       \<and> (\<exists>a s'. constraintSystem bytesToBigInt f s = (Inr a, s')
             \<and> snarkContext s' = snarkContext s
             \<and> analysis_rows a = rows (constraint_system t)
             \<and> analysis_digest a = digest (constraint_system t)
             \<and> analysis_result a = r
             \<and> length (analysis_gates a) = length (gates (json (constraint_system t)))
             \<and> (\<forall>i < length (gates (json (constraint_system t))).
                   gate_type (analysis_gates a ! i) = json_typ (gates (json (constraint_system t)) ! i)
                 \<and> gate_wires (analysis_gates a ! i) = wires (gates (json (constraint_system t)) ! i)
                 \<and> length (gate_coeffs (analysis_gates a ! i))
                     = length (coeffs (gates (json (constraint_system t)) ! i))
                 \<and> (\<forall>j < length (coeffs (gates (json (constraint_system t)) ! i)).
                       gate_coeffs (analysis_gates a ! i) ! j
                         = toString (bytesToBigInt
                             (Uint8Array (coeffs (gates (json (constraint_system t)) ! i) ! j)))
                     \<and> decimal_value (gate_coeffs (analysis_gates a ! i) ! j)
                         = bytesToBigInt
                             (Uint8Array (coeffs (gates (json (constraint_system t)) ! i) ! j))
                     \<and> set (gate_coeffs (analysis_gates a ! i) ! j) \<subseteq> set ''0123456789'')))"
proof -
  let ?gs = "gates (json (constraint_system t))"
  let ?a = "\<lparr> analysis_rows = rows (constraint_system t),
                  analysis_digest = digest (constraint_system t),
                  analysis_result = r,
                  analysis_gates = decoded_gates (gatesFromJson bytesToBigInt (json (constraint_system t))),
                  analysis_publicInputSize = public_input_size (json (constraint_system t)) \<rparr>"
  have run: "constraintSystem bytesToBigInt f s =
      (Inr ?a, t\<lparr> has_witness := has_witness s, snarkContext := snarkContext s \<rparr>)"
    using assms by (rule constraintSystem_returns[of f s r t bytesToBigInt])
  have gate: "gate_type (analysis_gates ?a ! i) = json_typ (?gs ! i)
      \<and> gate_wires (analysis_gates ?a ! i) = wires (?gs ! i)
      \<and> length (gate_coeffs (analysis_gates ?a ! i)) = length (coeffs (?gs ! i))
      \<and> (\<forall>j < length (coeffs (?gs ! i)).
            gate_coeffs (analysis_gates ?a ! i) ! j
              = toString (bytesToBigInt (Uint8Array (coeffs (?gs ! i) ! j)))
          \<and> decimal_value (gate_coeffs (analysis_gates ?a ! i) ! j)
              = bytesToBigInt (Uint8Array (coeffs (?gs ! i) ! j))
          \<and> set (gate_coeffs (analysis_gates ?a ! i) ! j) \<subseteq> set ''0123456789'')"
    if "i < length ?gs" for i
    using that toString_digits
    by (simp add: gatesFromJson_gate decimal_value_toString)
  have ctx: "snarkContext (t\<lparr> has_witness := has_witness s, snarkContext := snarkContext s \<rparr>) = snarkContext s"
    by simp
  have sel: "analysis_rows ?a = rows (constraint_system t)"
    "analysis_digest ?a = digest (constraint_system t)"
    "analysis_result ?a = r"
    by simp_all
  have len: "length (analysis_gates ?a) = length ?gs"
    by (simp add: gatesFromJson_length)
  from run ctx sel len gate analysis_entry_flags[of s] show ?thesis
    by blast
qed


theorem constraintSystem_result_witness:
  "recording_callback (analysis_entry plain_state)
     = (Inr 42, (analysis_entry plain_state)\<lparr> constraint_system := recorded_cs \<rparr>)
   \<and> fst (constraintSystem bytes_le recording_callback plain_state)
     = Inr \<lparr> analysis_rows = 1, analysis_digest = ''d41d8'', analysis_result = 42,
             analysis_gates = [\<lparr> gate_type = ''Generic'', gate_wires = [(0, 0), (0, 1)],
                                gate_coeffs = [''1'', ''256'', ''65535''] \<rparr>],
             analysis_publicInputSize = 0 \<rparr>
   \<and> snarkContext (snd (constraintSystem bytes_le recording_callback plain_state)) = []"
proof -
  let ?t = "(analysis_entry plain_state)\<lparr> constraint_system := recorded_cs \<rparr>"
  have run: "recording_callback (analysis_entry plain_state) = (Inr 42, ?t)"
    by (simp add: recording_callback_def)
  have bal: "snarkContext ?t = snarkContext (analysis_entry plain_state)"
    by simp
  have eval: "fst (constraintSystem bytes_le recording_callback plain_state)
     = Inr \<lparr> analysis_rows = 1, analysis_digest = ''d41d8'', analysis_result = 42,
             analysis_gates = [\<lparr> gate_type = ''Generic'', gate_wires = [(0, 0), (0, 1)],
                                gate_coeffs = [''1'', ''256'', ''65535''] \<rparr>],
             analysis_publicInputSize = 0 \<rparr>"
    using run bal
    by (simp add: constraintSystem_returns[where f = recording_callback and s = plain_state
            and r = 42 and t = ?t and b = bytes_le]
          recorded_cs_def gatesFromJson_def Uint8Array_def toString.simps digit_char_def)
  from run bal constraintSystem_result[where f = recording_callback and s = plain_state
         and r = 42 and t = ?t and bytesToBigInt = bytes_le]
  have "snarkContext (snd (constraintSystem bytes_le recording_callback plain_state))
          = snarkContext plain_state"
    by auto
  then show ?thesis
    using run eval by (simp add: plain_state_def)
qed

section \<open>The memoization layer\<close>

lemma getBlindingValue_cached:
  "memoizationContext t = m # rest \<Longrightarrow> blindingValue m = Some v \<Longrightarrow> getBlindingValue t = (v, t)"
  by (simp add: getBlindingValue_def)

lemma getBlindingValue_first:
  assumes "memoizationContext s = m # rest"
  shows "\<exists>m'. memoizationContext (snd (getBlindingValue s)) = m' # rest
            \<and> blindingValue m' = Some (fst (getBlindingValue s))"
  using assms
  by (cases "blindingValue m")
     (auto simp: getBlindingValue_def Field_random_def memo_update_def)

lemma getBlindingValue_sampling:
  assumes "memoizationContext s = m # rest"
  shows "random_pos (snd (getBlindingValue s))
           = (case blindingValue m of None \<Rightarrow> random_pos s + 1 | Some b \<Rightarrow> random_pos s)"
    and "fst (getBlindingValue s)
           = (case blindingValue m of None \<Rightarrow> Constant (random_tape s (random_pos s)) | Some b \<Rightarrow> b)"
  using assms
  by (auto simp: getBlindingValue_def Field_random_def memo_update_def split: option.splits)

text \<open>
  C9: under a memoization record, \<open>getBlindingValue()\<close> samples the random source only
  when the record has no blinding value yet, and then stores the sample in the record;
  from then on every call under that record, in whatever state it is made, returns that
  same field element and samples nothing (the state is left as it is). In particular the
  call right after the first one returns the value of the first.
\<close>

theorem getBlindingValue_once:
  assumes "memoizationContext s = m # rest"
  shows "(\<exists>m'. memoizationContext (snd (getBlindingValue s)) = m' # rest
             \<and> blindingValue m' = Some (fst (getBlindingValue s)))
       \<and> (\<forall>t m' rest'. memoizationContext t = m' # rest'
               \<and> blindingValue m' = Some (fst (getBlindingValue s))
             \<longrightarrow> getBlindingValue t = (fst (getBlindingValue s), t))
       \<and> getBlindingValue (snd (getBlindingValue s))
            = (fst (getBlindingValue s), snd (getBlindingValue s))
       \<and> random_pos (snd (getBlindingValue s))
            = (case blindingValue m of None \<Rightarrow> random_pos s + 1 | Some b \<Rightarrow> random_pos s)
       \<and> fst (getBlindingValue s)
            = (case blindingValue m of
                 None \<Rightarrow> Constant (random_tape s (random_pos s))
               | Some b \<Rightarrow> b)"
proof -
  from getBlindingValue_first[OF assms] obtain m' where
    m': "memoizationContext (snd (getBlindingValue s)) = m' # rest"
        "blindingValue m' = Some (fst (getBlindingValue s))"
    by blast
  have again: "getBlindingValue (snd (getBlindingValue s))
                 = (fst (getBlindingValue s), snd (getBlindingValue s))"
    by (rule getBlindingValue_cached[OF m'])
  from m' again getBlindingValue_sampling[OF assms] getBlindingValue_cached show ?thesis
    by blast
qed

theorem getBlindingValue_once_witness:
  "memoizationContext first_pass_state = [fresh_memo]
   \<and> fst (getBlindingValue first_pass_state) = Constant 3
   \<and> random_pos (snd (getBlindingValue first_pass_state)) = 1
   \<and> getBlindingValue (snd (getBlindingValue first_pass_state))
        = (Constant 3, snd (getBlindingValue first_pass_state))
   \<and> random_pos (snd (getBlindingValue (snd (getBlindingValue first_pass_state)))) = 1"
proof -
  have m: "memoizationContext first_pass_state = fresh_memo # []"
    by (simp add: first_pass_state_def)
  have nb: "blindingValue fresh_memo = None"
    by (simp add: fresh_memo_def)
  have v: "fst (getBlindingValue first_pass_state) = Constant 3"
    by (simp add: getBlindingValue_def first_pass_state_def plain_state_def fresh_memo_def
          Field_random_def)
  have pos: "random_pos first_pass_state = 0"
    by (simp add: first_pass_state_def plain_state_def)
  from getBlindingValue_once[OF m] nb m v pos show ?thesis
    by simp
qed

text \<open>
  C10: with no memoization context active, the callback that \<open>memoizeWitness\<close> hands to
  \<open>Provable.witness\<close> is \<open>compute\<close> itself, in every such state, and
  \<open>memoizeWitness(type, compute)\<close> is \<open>Provable.witness(type, compute)\<close>: same result,
  same final state.
\<close>

theorem memoizeWitness_without_context:
  assumes "memoizationContext s = []"
  shows "memoizeWitness type compute s = witness type compute s
       \<and> (\<forall>t. memoizationContext t = [] \<longrightarrow> memoizeWitness_callback type compute t = compute t)"
  using assms
  by (simp add: memoizeWitness_def witness_def witness_callback_def Snarky_exists_def
        snarkContext_enter_def memoizeWitness_callback_def Let_def)

theorem memoizeWitness_without_context_witness:
  "memoizationContext plain_state = [] \<and> memoizationContext prover_state = []
   \<and> memoizeWitness Field_type random_compute plain_state
        = witness Field_type random_compute plain_state
   \<and> fst (memoizeWitness Field_type random_compute plain_state) = Inr (Constant 3)
   \<and> memoizeWitness Field_type random_compute prover_state
        = witness Field_type random_compute prover_state
   \<and> fst (memoizeWitness Field_type random_compute prover_state) = Inr (Var 0)"
proof -
  have a: "memoizationContext plain_state = []" by (simp add: plain_state_def)
  have b: "memoizationContext prover_state = []" by (simp add: prover_state_def plain_state_def)
  have c: "fst (witness Field_type random_compute plain_state) = Inr (Constant 3)"
    by (simp add: witness_def plain_state_def inCheckedComputation_now_def snarkContext_get_def
          ambient_frame_def random_compute_def Field_random_def clone_def Field_type_def)
  have d: "fst (witness Field_type random_compute prover_state) = Inr (Var 0)"
    by (simp add: witness_def prover_state_def plain_state_def inCheckedComputation_now_def
          snarkContext_get_def prover_frame_def ambient_frame_def random_compute_def
          Field_random_def Field_type_def Snarky_exists_def witness_callback_def
          snarkContext_enter_def
          snarkContext_leave_def spread_def overlay_def Let_def)
  from memoizeWitness_without_context[OF a, of Field_type random_compute]
    memoizeWitness_without_context[OF b, of Field_type random_compute] a b c d
  show ?thesis by simp
qed

section \<open>The witness engine\<close>

lemma witness_direct:
  "\<not> inCheckedComputation_now s \<or> inWitnessBlock (snarkContext_get s) \<Longrightarrow>
   witness type compute s =
     (case compute s of (Inl e, s1) \<Rightarrow> (Inl e, s1) | (Inr v, s1) \<Rightarrow> (Inr (clone type v), s1))"
  by (auto simp: witness_def Let_def)

lemma clone_round_trip: "round_trip_at type v \<Longrightarrow> clone type v = v"
  by (simp add: clone_def round_trip_at_def Let_def)

lemma plain_state_mode: "\<not> inCheckedComputation_now plain_state"
  by (simp add: plain_state_def inCheckedComputation_now_def snarkContext_get_def ambient_frame_def)

lemma witness_block_state_mode:
  "inCheckedComputation_now witness_block_state"
  "inWitnessBlock (snarkContext_get witness_block_state)"
  by (simp_all add: witness_block_state_def prover_state_def plain_state_def prover_frame_def
        ambient_frame_def inCheckedComputation_now_def snarkContext_get_def)

lemma prover_state_mode:
  "inCheckedComputation_now prover_state"
  "\<not> inWitnessBlock (snarkContext_get prover_state)"
  "has_witness prover_state"
  by (simp_all add: prover_state_def plain_state_def prover_frame_def
        ambient_frame_def inCheckedComputation_now_def snarkContext_get_def)

text \<open>
  C3, as stated, fails for a descriptor whose round trip is not the identity: outside a
  checked computation \<open>witness\<close> returns the clone of what the callback returned, not the
  value itself. The array descriptor of two elements of \<open>wide_type\<close> is such a descriptor:
  \<open>witness\<close> turns \<open>[1, 2]\<close> into \<open>[0, 0]\<close>.
\<close>

theorem witness_clone_counterexample:
  "\<not> inCheckedComputation_now plain_state
   \<and> witness (provableArray (@) [] wide_type 2) (\<lambda>t. (Inr [1, 2], t)) plain_state
       = (Inr [0, 0], plain_state)
   \<and> [0, 0] \<noteq> [1, 2 :: nat]"
proof -
  have a: "\<not> inCheckedComputation_now plain_state \<or> inWitnessBlock (snarkContext_get plain_state)"
    using plain_state_mode by simp
  have "clone (provableArray (@) [] wide_type 2) [1, 2] = [0, 0]"
    by (simp add: clone_def provableArray_def wide_type_def fromFields_loop.simps slice_def)
  then show ?thesis
    using witness_direct[OF a, of "provableArray (@) [] wide_type 2" "\<lambda>t. (Inr [1, 2], t)"]
      plain_state_mode
    by simp
qed

text \<open>
  C3 (amended): outside a checked computation, or when the current frame already has
  \<open>inWitnessBlock\<close> set, \<open>witness(T, compute)\<close> invokes \<open>compute\<close> directly, in the
  state of the call, and returns its result \<open>v\<close> sent through the round trip: the value
  returned is \<open>fromFields(toFields(v), toAuxiliary(v))\<close>, which is \<open>v\<close> when \<open>T\<close>
  satisfies the round-trip law at \<open>v\<close>. For \<open>compute = () => v\<close> the state is the one of
  the call: no frame was entered, no variable allocated. Whatever \<open>check\<close> the descriptor
  has makes no difference: it is not called.
\<close>

theorem witness_outside_checked:
  assumes "\<not> inCheckedComputation_now s \<or> inWitnessBlock (snarkContext_get s)"
  shows "witness type (\<lambda>t. (Inr v, t)) s
           = (Inr (fromFields type (toFields type v) (toAuxiliary type (Some v))), s)
       \<and> (\<forall>compute. witness type compute s =
             (case compute s of
                (Inl e, s1) \<Rightarrow> (Inl e, s1)
              | (Inr x, s1) \<Rightarrow>
                  (Inr (fromFields type (toFields type x) (toAuxiliary type (Some x))), s1)))
       \<and> (round_trip_at type v \<longrightarrow> witness type (\<lambda>t. (Inr v, t)) s = (Inr v, s))
       \<and> (\<forall>chk. witness (type\<lparr> check := chk \<rparr>) (\<lambda>t. (Inr v, t)) s
                  = witness type (\<lambda>t. (Inr v, t)) s)"
proof -
  have direct: "witness ty compute s =
      (case compute s of
         (Inl e, s1) \<Rightarrow> (Inl e, s1)
       | (Inr x, s1) \<Rightarrow> (Inr (fromFields ty (toFields ty x) (toAuxiliary ty (Some x))), s1))"
    for ty :: "('a, 'b, 'c, state) Provable" and compute
    using witness_direct[OF assms, of ty compute]
    by (simp add: clone_def Let_def split: prod.splits sum.splits)
  have one: "witness ty (\<lambda>t. (Inr v, t)) s
           = (Inr (fromFields ty (toFields ty v) (toAuxiliary ty (Some v))), s)"
    for ty :: "('a, 'b, 'c, state) Provable"
    using direct[of ty "\<lambda>t. (Inr v, t)"] by simp
  have same: "witness (type\<lparr> check := chk \<rparr>) (\<lambda>t. (Inr v, t)) s = witness type (\<lambda>t. (Inr v, t)) s"
    for chk
    using one[of "type\<lparr> check := chk \<rparr>"] one[of type] by simp
  have law: "witness type (\<lambda>t. (Inr v, t)) s = (Inr v, s)" if "round_trip_at type v"
    using one[of type] that by (simp add: round_trip_at_def)
  from one[of type] direct[of type] law same show ?thesis
    by blast
qed

theorem witness_outside_checked_witness:
  "\<not> inCheckedComputation_now plain_state
   \<and> inWitnessBlock (snarkContext_get witness_block_state)
   \<and> round_trip_at Field_type (Constant 5)
   \<and> witness Field_type (\<lambda>t. (Inr (Constant 5), t)) plain_state = (Inr (Constant 5), plain_state)
   \<and> witness Field_type (\<lambda>t. (Inr (Constant 5), t)) witness_block_state
       = (Inr (Constant 5), witness_block_state)
   \<and> witness wide_type (\<lambda>t. (Inr 7, t)) witness_block_state = (Inr 7, witness_block_state)
   \<and> fst (witness Field_type failing_compute plain_state) = Inl (Error ''compute failed'')"
proof -
  have a: "\<not> inCheckedComputation_now plain_state \<or> inWitnessBlock (snarkContext_get plain_state)"
    using plain_state_mode by simp
  have b: "\<not> inCheckedComputation_now witness_block_state
             \<or> inWitnessBlock (snarkContext_get witness_block_state)"
    using witness_block_state_mode by simp
  have thrown: "fst (witness Field_type failing_compute plain_state) = Inl (Error ''compute failed'')"
    using witness_outside_checked[OF a, of Field_type "Constant 5"]
    by (simp add: failing_compute_def)
  from witness_outside_checked[OF a, of Field_type "Constant 5"]
    witness_outside_checked[OF b, of Field_type "Constant 5"]
    witness_outside_checked[OF b, of wide_type 7]
    plain_state_mode witness_block_state_mode Field_type_laws(2) wide_type_round_trip thrown
  show ?thesis by blast
qed

lemma witness_callback_snarkContext:
  assumes "\<forall>t. snarkContext (snd (compute t)) = snarkContext t"
  shows "snarkContext (snd (witness_callback type compute t)) = snarkContext t"
  using assms[rule_format, of t]
  by (auto simp: witness_callback_def Let_def split: prod.splits sum.splits)

lemma Snarky_exists_snarkContext:
  assumes "\<forall>t. snarkContext (snd (cb t)) = snarkContext t"
  shows "snarkContext (snd (Snarky_exists n cb s)) = snarkContext s"
proof (cases "has_witness s")
  case False
  then show ?thesis by (simp add: Snarky_exists_def Let_def)
next
  case True
  obtain r s1 where cb: "cb s = (r, s1)" by (cases "cb s")
  with assms have "snarkContext s1 = snarkContext s" by (metis snd_conv)
  with True cb show ?thesis
    by (auto simp: Snarky_exists_def Let_def split: sum.splits prod.splits)
qed

lemma enter_leave:
  assumes "snarkContext_enter ov s = (i, s1)" and "snarkContext s2 = snarkContext s1"
  shows "\<exists>ctx. snarkContext_leave i s2 = (Inr ctx, s2\<lparr> snarkContext := snarkContext s \<rparr>)"
  using assms by (auto simp: snarkContext_enter_def snarkContext_leave_def Let_def)

lemma witness_block_entry_frame:
  "snarkContext (witness_block_entry s)
     = ((snarkContext_get s)\<lparr> inWitnessBlock := True \<rparr>, next_context_id s) # snarkContext s"
  by (simp add: witness_block_entry_def snarkContext_enter_def Let_def overlay_def spread_def)

lemma witness_restores_frames:
  assumes "inCheckedComputation_now s" and "\<not> inWitnessBlock (snarkContext_get s)"
    and cf: "\<forall>t. snarkContext (snd (compute t)) = snarkContext t"
    and kf: "\<forall>v t. snarkContext (snd (check type (Some v) t)) = snarkContext t"
  shows "snarkContext (snd (witness type compute s)) = snarkContext s"
proof -
  let ?ov = "(spread (snarkContext_get s))\<lparr> set_inWitnessBlock := Some True \<rparr>"
  let ?cb = "witness_callback type compute"
  obtain i s1 where en: "snarkContext_enter ?ov s = (i, s1)"
    by (cases "snarkContext_enter ?ov s")
  obtain r s2 where ex: "Snarky_exists (sizeInFields type) ?cb s1 = (r, s2)"
    by (cases "Snarky_exists (sizeInFields type) ?cb s1")
  have cbf: "\<forall>t. snarkContext (snd (?cb t)) = snarkContext t"
    using witness_callback_snarkContext[OF cf] by blast
  have "snarkContext s2 = snarkContext s1"
    using Snarky_exists_snarkContext[OF cbf, of "sizeInFields type" s1] ex by simp
  then obtain ctx where lv:
    "snarkContext_leave i s2 = (Inr ctx, s2\<lparr> snarkContext := snarkContext s \<rparr>)"
    using enter_leave[OF en] by blast
  let ?s3 = "s2\<lparr> snarkContext := snarkContext s \<rparr>"
  have w: "witness type compute s =
      (case r of
         Inl e \<Rightarrow> (Inl e, ?s3)
       | Inr (flds, proverValue) \<Rightarrow>
           (let aux = toAuxiliary type proverValue; value = fromFields type flds aux
            in case check type (Some value) ?s3 of
                 (Inl e, s4) \<Rightarrow> (Inl e, s4)
               | (Inr u, s4) \<Rightarrow> (Inr value, s4)))"
    using assms(1,2) en ex lv by (simp add: witness_def Let_def)
  show ?thesis
  proof (cases r)
    case (Inl e)
    with w show ?thesis by simp
  next
    case (Inr p)
    obtain flds pv where p: "p = (flds, pv)" by (cases p)
    let ?v = "fromFields type flds (toAuxiliary type pv)"
    obtain k s4 where ck: "check type (Some ?v) ?s3 = (k, s4)"
      by (cases "check type (Some ?v) ?s3")
    have "snarkContext s4 = snarkContext ?s3"
      using kf[rule_format, of ?v ?s3] ck by simp
    with w Inr p ck show ?thesis
      by (cases k) (simp_all add: Let_def)
  qed
qed

lemma witness_rethrows:
  assumes "inCheckedComputation_now s" and "\<not> inWitnessBlock (snarkContext_get s)"
    and cf: "\<forall>t. snarkContext (snd (compute t)) = snarkContext t"
    and thr: "fst (Snarky_exists (sizeInFields type) (witness_callback type compute)
                 (witness_block_entry s)) = Inl e"
  shows "fst (witness type compute s) = Inl e"
proof -
  let ?ov = "(spread (snarkContext_get s))\<lparr> set_inWitnessBlock := Some True \<rparr>"
  let ?cb = "witness_callback type compute"
  obtain i s1 where en: "snarkContext_enter ?ov s = (i, s1)"
    by (cases "snarkContext_enter ?ov s")
  then have s1: "s1 = witness_block_entry s" by (simp add: witness_block_entry_def)
  obtain r s2 where ex: "Snarky_exists (sizeInFields type) ?cb s1 = (r, s2)"
    by (cases "Snarky_exists (sizeInFields type) ?cb s1")
  with thr s1 have r: "r = Inl e" by simp
  have cbf: "\<forall>t. snarkContext (snd (?cb t)) = snarkContext t"
    using witness_callback_snarkContext[OF cf] by blast
  have "snarkContext s2 = snarkContext s1"
    using Snarky_exists_snarkContext[OF cbf, of "sizeInFields type" s1] ex by simp
  then obtain ctx where lv:
    "snarkContext_leave i s2 = (Inr ctx, s2\<lparr> snarkContext := snarkContext s \<rparr>)"
    using enter_leave[OF en] by blast
  show ?thesis
    using assms(1,2) en ex r lv by (simp add: witness_def Let_def)
qed

text \<open>
  C4: a call of \<open>witness(type, compute)\<close> in a checked computation and outside a witness
  block enters a frame with \<open>inWitnessBlock\<close> set on top of the current one. Provided
  \<open>compute\<close> and \<open>check\<close> themselves leave the stack of frames as they find it, the stack
  is the one of the call again when \<open>witness\<close> is left, whether it returns or throws; and
  when \<open>Snarky.exists\<close> throws in the nested frame, because \<open>compute\<close> or the backend
  does, \<open>witness\<close> throws that same exception, with the frame unwound.
\<close>

theorem witness_unwinds_frame:
  assumes "inCheckedComputation_now s" and "\<not> inWitnessBlock (snarkContext_get s)"
    and "\<forall>t. snarkContext (snd (compute t)) = snarkContext t"
    and "\<forall>v t. snarkContext (snd (check type (Some v) t)) = snarkContext t"
  shows "snarkContext (witness_block_entry s)
           = ((snarkContext_get s)\<lparr> inWitnessBlock := True \<rparr>, next_context_id s) # snarkContext s
       \<and> snarkContext (snd (witness type compute s)) = snarkContext s
       \<and> (\<forall>e. fst (Snarky_exists (sizeInFields type) (witness_callback type compute)
                     (witness_block_entry s)) = Inl e
              \<longrightarrow> fst (witness type compute s) = Inl e)
       \<and> (\<forall>e. has_witness s \<and> fst (compute (witness_block_entry s)) = Inl e
              \<longrightarrow> fst (witness type compute s) = Inl e)"
proof -
  have hw: "has_witness (witness_block_entry s) = has_witness s"
    by (simp add: witness_block_entry_def snarkContext_enter_def Let_def)
  have thrown: "fst (Snarky_exists (sizeInFields type) (witness_callback type compute)
                  (witness_block_entry s)) = Inl e"
    if "has_witness s" and "fst (compute (witness_block_entry s)) = Inl e" for e
    using that hw
    by (cases "compute (witness_block_entry s)")
       (simp add: Snarky_exists_def witness_callback_def)
  from witness_block_entry_frame[of s] witness_restores_frames[OF assms]
    witness_rethrows[OF assms(1,2,3)] thrown
  show ?thesis by blast
qed

lemma Field_type_check_frame:
  "\<forall>v t. snarkContext (snd (check Field_type (Some v) t)) = snarkContext t"
  by (simp add: Field_type_def)

theorem witness_unwinds_frame_witness:
  "inCheckedComputation_now prover_state \<and> \<not> inWitnessBlock (snarkContext_get prover_state)
   \<and> has_witness prover_state
   \<and> inWitnessBlock (snarkContext_get (witness_block_entry prover_state))
   \<and> fst (failing_compute (witness_block_entry prover_state)) = Inl (Error ''compute failed'')
   \<and> fst (witness Field_type failing_compute prover_state) = Inl (Error ''compute failed'')
   \<and> snarkContext (snd (witness Field_type failing_compute prover_state)) = [(prover_frame, 0)]"
proof -
  have cf: "\<forall>t. snarkContext (snd (failing_compute t)) = snarkContext t"
    by (simp add: failing_compute_def)
  have thr: "fst (failing_compute (witness_block_entry prover_state)) = Inl (Error ''compute failed'')"
    by (simp add: failing_compute_def)
  have ctx: "snarkContext prover_state = [(prover_frame, 0)]"
    by (simp add: prover_state_def)
  have inb: "inWitnessBlock (snarkContext_get (witness_block_entry prover_state))"
    by (simp add: snarkContext_get_def witness_block_entry_frame)
  from witness_unwinds_frame[OF prover_state_mode(1,2) cf Field_type_check_frame]
    prover_state_mode thr ctx inb
  show ?thesis by simp
qed


lemma toConstant_constants:
  "map_throwing (toConstant t) xs = Inr ys \<Longrightarrow> \<forall>f \<in> set ys. \<exists>c. f = Constant c"
proof (induction xs arbitrary: ys)
  case Nil
  then show ?case by simp
next
  case (Cons x xs)
  then show ?case
    by (cases x) (auto split: sum.splits option.splits)
qed

lemma read_bound_variables:
  assumes "\<forall>f \<in> set cs. \<exists>c. f = Constant c"
    and "\<forall>j < length cs. var_values st (n + j) = constant_value (cs ! j)"
  shows "map_throwing (toConstant st) (map Var [n..<n + length cs]) = Inr cs"
  using assms
proof (induction cs arbitrary: n)
  case Nil
  then show ?case by simp
next
  case (Cons c cs)
  from Cons.prems(1) obtain k where c: "c = Constant k" by auto
  have first: "var_values st n = Some k"
    using Cons.prems(2)[rule_format, of 0] c by simp
  have later: "\<forall>j < length cs. var_values st (Suc n + j) = constant_value (cs ! j)"
  proof (intro allI impI)
    fix j
    assume "j < length cs"
    then show "var_values st (Suc n + j) = constant_value (cs ! j)"
      using Cons.prems(2)[rule_format, of "Suc j"] by simp
  qed
  have rest: "map_throwing (toConstant st) (map Var [Suc n..<Suc n + length cs]) = Inr cs"
    using Cons.IH[of "Suc n"] Cons.prems(1) later by simp
  have "[n..<n + Suc (length cs)] = n # [Suc n..<n + Suc (length cs)]"
    by (rule upt_conv_Cons) simp
  then have "[n..<n + length (c # cs)] = n # [Suc n..<Suc n + length cs]"
    by simp
  then show ?case
    using first rest c by simp
qed

lemma Snarky_exists_symbolic:
  assumes "\<not> has_witness s1"
  shows "Snarky_exists n cb s1
           = (Inr (map Var [next_var s1..<next_var s1 + n], None), s1\<lparr> next_var := next_var s1 + n \<rparr>)"
  using assms by (simp add: Snarky_exists_def Let_def)

lemma Snarky_exists_prover:
  assumes "has_witness s1"
    and "Snarky_exists n (witness_callback type compute) s1 = (Inr (flds, pv), s2)"
  shows "\<exists>x t. compute s1 = (Inr x, t) \<and> pv = Some x
           \<and> flds = map Var [next_var t..<next_var t + length (toFields type x)]
           \<and> map_throwing (toConstant s2) flds = map_throwing (toConstant t) (toFields type x)"
proof -
  from assms obtain x t cs where
    c: "compute s1 = (Inr x, t)" and cs: "map_throwing (toConstant t) (toFields type x) = Inr cs"
    and flds: "flds = map Var [next_var t..<next_var t + length cs]" and pv: "pv = Some x"
    and s2: "s2 = t\<lparr> next_var := next_var t + length cs,
                    var_values := (\<lambda>i. if next_var t \<le> i \<and> i < next_var t + length cs
                                       then constant_value (cs ! (i - next_var t))
                                       else var_values t i) \<rparr>"
    by (auto simp: Snarky_exists_def witness_callback_def Let_def split: prod.splits sum.splits)
  have len: "length cs = length (toFields type x)"
    by (rule map_throwing_length[OF cs])
  have "map_throwing (toConstant s2) (map Var [next_var t..<next_var t + length cs]) = Inr cs"
    by (rule read_bound_variables[OF toConstant_constants[OF cs]]) (simp add: s2)
  with c cs flds pv len show ?thesis by simp
qed

text \<open>
  C2, as stated, fails inside a witness block, which is inside the checked computation:
  there \<open>witness\<close> returns the clone of what \<open>compute\<close> returned and never calls
  \<open>check\<close>. \<open>unsatisfiable_type\<close> has a \<open>check\<close> that no value passes and a
  serialization of two fields for a declared size of one; \<open>witness\<close> returns the value 3
  all the same.
\<close>

theorem witness_check_skipped_counterexample:
  "inCheckedComputation_now witness_block_state
   \<and> witness unsatisfiable_type (\<lambda>t. (Inr 3, t)) witness_block_state = (Inr 3, witness_block_state)
   \<and> check unsatisfiable_type (Some 3) witness_block_state
        = (Inl (Error ''constraint unsatisfied''), witness_block_state)
   \<and> \<not> (\<exists>t. check unsatisfiable_type (Some 3) t = (Inr (), witness_block_state))
   \<and> length (toFields unsatisfiable_type 3) = 2
   \<and> sizeInFields unsatisfiable_type = 1"
proof -
  have b: "\<not> inCheckedComputation_now witness_block_state
             \<or> inWitnessBlock (snarkContext_get witness_block_state)"
    using witness_block_state_mode by simp
  have "witness unsatisfiable_type (\<lambda>t. (Inr 3, t)) witness_block_state = (Inr 3, witness_block_state)"
    using witness_direct[OF b, of unsatisfiable_type "\<lambda>t. (Inr 3, t)"]
    by (simp add: clone_def unsatisfiable_type_def wide_type_def)
  then show ?thesis
    using witness_block_state_mode(1) by (simp add: unsatisfiable_type_def wide_type_def)
qed

text \<open>
  C2 (amended): when \<open>witness(T, compute)\<close> is called inside a checked computation and
  outside a witness block and returns, the value it returns is
  \<open>fromFields(fields, toAuxiliary(proverValue))\<close> for the fields and the prover value that
  \<open>Snarky.exists\<close>, run in the witness-block frame, came back with, and \<open>check\<close> was
  called on that value, in the state left by leaving the frame, and did not throw
  (\<open>witness\<close> ends in the state \<open>check\<close> ended in). The fields are fresh variables of the
  backend: in symbolic execution \<open>sizeInFields(T)\<close> of them, with no prover value; with
  the prover one for each field of \<open>toFields\<close> of what \<open>compute\<close> returned, bound to
  the value of that field. So there are \<open>sizeInFields(T)\<close> of them, and the value
  returned serializes to as many, when \<open>toFields\<close> of \<open>T\<close> always yields
  \<open>sizeInFields(T)\<close> field elements; nothing compares the two numbers.
\<close>

theorem witness_checked_result:
  assumes "inCheckedComputation_now s" and "\<not> inWitnessBlock (snarkContext_get s)"
    and "witness type compute s = (Inr v, s')"
  shows "\<exists>flds pv s2.
           Snarky_exists (sizeInFields type) (witness_callback type compute) (witness_block_entry s)
             = (Inr (flds, pv), s2)
         \<and> v = fromFields type flds (toAuxiliary type pv)
         \<and> check type (Some v) (s2\<lparr> snarkContext := tl (snarkContext s2) \<rparr>) = (Inr (), s')
         \<and> (\<not> has_witness s \<longrightarrow>
               pv = None \<and> flds = map Var [next_var s..<next_var s + sizeInFields type])
         \<and> (has_witness s \<longrightarrow>
               (\<exists>x t. compute (witness_block_entry s) = (Inr x, t) \<and> pv = Some x
                  \<and> flds = map Var [next_var t..<next_var t + length (toFields type x)]
                  \<and> map_throwing (toConstant s2) flds
                      = map_throwing (toConstant t) (toFields type x)))
         \<and> (size_law type \<longrightarrow>
               length flds = sizeInFields type \<and> length (toFields type v) = sizeInFields type)"
proof -
  let ?ov = "(spread (snarkContext_get s))\<lparr> set_inWitnessBlock := Some True \<rparr>"
  let ?cb = "witness_callback type compute"
  obtain i s1 where en: "snarkContext_enter ?ov s = (i, s1)"
    by (cases "snarkContext_enter ?ov s")
  then have s1: "s1 = witness_block_entry s"
    by (simp add: witness_block_entry_def)
  have hw: "has_witness s1 = has_witness s" and nv: "next_var s1 = next_var s"
    using en by (auto simp: snarkContext_enter_def Let_def)
  obtain r s2 where ex: "Snarky_exists (sizeInFields type) ?cb s1 = (r, s2)"
    by (cases "Snarky_exists (sizeInFields type) ?cb s1")
  obtain l s3 where lv: "snarkContext_leave i s2 = (l, s3)"
    by (cases "snarkContext_leave i s2")
  from assms en ex lv obtain flds pv where
    r: "r = Inr (flds, pv)"
    and ck: "check type (Some (fromFields type flds (toAuxiliary type pv))) s3 = (Inr (), s')"
    and v: "v = fromFields type flds (toAuxiliary type pv)"
    and left: "\<exists>ctx. l = Inr ctx"
    by (auto simp: witness_def Let_def split: sum.splits prod.splits)
  have s3: "s3 = s2\<lparr> snarkContext := tl (snarkContext s2) \<rparr>"
    using lv left
    by (auto simp: snarkContext_leave_def split: list.splits if_splits)
  have sym: "pv = None \<and> flds = map Var [next_var s..<next_var s + sizeInFields type]"
    if "\<not> has_witness s"
    using that hw nv ex r Snarky_exists_symbolic[of s1 "sizeInFields type" ?cb] by simp
  have prv: "\<exists>x t. compute (witness_block_entry s) = (Inr x, t) \<and> pv = Some x
                  \<and> flds = map Var [next_var t..<next_var t + length (toFields type x)]
                  \<and> map_throwing (toConstant s2) flds
                      = map_throwing (toConstant t) (toFields type x)"
    if "has_witness s"
    using that hw ex r s1 Snarky_exists_prover[of s1 "sizeInFields type" type compute flds pv s2]
    by simp
  have len: "length flds = sizeInFields type" if "size_law type"
  proof (cases "has_witness s")
    case True
    show ?thesis
      using prv[OF True] that by (auto simp: size_law_def)
  next
    case False
    from sym[OF False] show ?thesis by simp
  qed
  have ser: "length (toFields type v) = sizeInFields type" if "size_law type"
    using that by (simp add: size_law_def)
  from ex r s1 v ck s3 sym prv len ser show ?thesis
    by blast
qed

theorem witness_checked_result_witness:
  "inCheckedComputation_now prover_state \<and> \<not> inWitnessBlock (snarkContext_get prover_state)
   \<and> has_witness prover_state
   \<and> fst (witness Field_type random_compute prover_state) = Inr (Var 0)
   \<and> var_values (snd (witness Field_type random_compute prover_state)) 0 = Some 283
   \<and> size_law Field_type
   \<and> (\<exists>flds pv s2.
         Snarky_exists (sizeInFields Field_type) (witness_callback Field_type random_compute)
           (witness_block_entry prover_state) = (Inr (flds, pv), s2)
       \<and> Var 0 = fromFields Field_type flds (toAuxiliary Field_type pv)
       \<and> pv = Some (Constant 283)
       \<and> length flds = sizeInFields Field_type)
   \<and> inCheckedComputation_now symbolic_state \<and> \<not> has_witness symbolic_state
   \<and> fst (witness Field_type failing_compute symbolic_state) = Inr (Var 0)"
proof -
  have ev: "fst (witness Field_type random_compute prover_state) = Inr (Var 0)"
    "var_values (snd (witness Field_type random_compute prover_state)) 0 = Some 283"
    by (simp_all add: witness_def prover_state_def plain_state_def inCheckedComputation_now_def
          snarkContext_get_def prover_frame_def ambient_frame_def random_compute_def
          Field_random_def Field_type_def Snarky_exists_def witness_callback_def
          snarkContext_enter_def snarkContext_leave_def spread_def overlay_def Let_def)
  then have res: "witness Field_type random_compute prover_state
      = (Inr (Var 0), snd (witness Field_type random_compute prover_state))"
    by (metis prod.collapse)
  have rc: "random_compute (witness_block_entry prover_state)
      = (Inr (Constant 283), (witness_block_entry prover_state)\<lparr> random_pos := 41 \<rparr>)"
    by (simp add: random_compute_def Field_random_def witness_block_entry_def
          snarkContext_enter_def Let_def prover_state_def plain_state_def)
  have sm: "inCheckedComputation_now symbolic_state"
    "\<not> inWitnessBlock (snarkContext_get symbolic_state)" "\<not> has_witness symbolic_state"
    by (simp_all add: symbolic_state_def prover_state_def plain_state_def prover_frame_def
          ambient_frame_def inCheckedComputation_now_def snarkContext_get_def)
  have sev: "fst (witness Field_type failing_compute symbolic_state) = Inr (Var 0)"
    by (simp add: witness_def symbolic_state_def prover_state_def plain_state_def
          inCheckedComputation_now_def snarkContext_get_def prover_frame_def ambient_frame_def
          Field_type_def Snarky_exists_def snarkContext_enter_def snarkContext_leave_def
          spread_def overlay_def Let_def)
  from witness_checked_result[OF prover_state_mode(1,2) res] prover_state_mode ev rc
    Field_type_laws(1) sm sev
  show ?thesis by auto
qed

section \<open>Determinism of memoized witnesses\<close>






















lemma runs_prover_cong:
  "snarkContext t = snarkContext s \<Longrightarrow> has_witness t = has_witness s
     \<Longrightarrow> runs_prover t = runs_prover s"
  by (simp add: runs_prover_def inCheckedComputation_now_def snarkContext_get_def)









end
